theory Spec2Isabelle
  imports Complex_Main "HOL-Library.AList" "HOL-Library.Sublist"
begin

section \<open>Python values\<close>

text \<open>
  The exceptions the program can raise. The driver's loop catches \<open>ValueError\<close> only
  (line 120); every other exception leaves the loop and ends the run before line 123
  writes the file.
\<close>

datatype exn = ValueError | IndexError | KeyError | AttributeError | TypeError

text \<open>
  Text is a string of 8-bit characters (code points below 256). A Python \<open>dict\<close> is an
  association list: \<open>map_of\<close> is the lookup, \<open>AList.update\<close> the assignment
  \<open>d[k] = v\<close> (an existing key keeps its place, a new key goes to the end, as in Python).
  A scalar of a parsed JSON text is a string or a number.
\<close>

datatype scalar = Str string | Num rat

text \<open>
  \<open>str.isdigit\<close>: true when the string is not empty and every character is a digit.
  Below code point 256 the digits are \<open>0\<close> to \<open>9\<close> and the superscripts two, three and
  one (178, 179, 185).
\<close>

definition digit_char :: "char \<Rightarrow> bool" where
  "digit_char c =
     (let n = (of_char c :: nat) in (48 \<le> n \<and> n \<le> 57) \<or> n = 178 \<or> n = 179 \<or> n = 185)"

definition isdigit :: "string \<Rightarrow> bool" where
  "isdigit s = (s \<noteq> [] \<and> list_all digit_char s)"

text \<open>\<open>s.split(c)\<close> with an explicit separator: one piece more than there are separators.\<close>

fun split_on :: "char \<Rightarrow> string \<Rightarrow> string list" where
  "split_on c [] = [[]]"
| "split_on c (x # xs) =
     (if x = c then [] # split_on c xs
      else (case split_on c xs of w # ws \<Rightarrow> (x # w) # ws | [] \<Rightarrow> [[x]]))"

text \<open>\<open>sep.join(ws)\<close>.\<close>

fun join :: "string \<Rightarrow> string list \<Rightarrow> string" where
  "join sep [] = []"
| "join sep [w] = w"
| "join sep (w # v # ws) = w @ sep @ join sep (v # ws)"

section \<open>The fetched page\<close>

text \<open>
  A frame is one element of the list \<open>pd.read_html\<close> returns: its column index, which is
  a \<open>MultiIndex\<close> of (group, leaf) pairs when the table has a two-level header, and its
  rows. The cells are text, \<open>None\<close> being NaN: the tables of the site repeat their header
  row between sections, which keeps every column of object dtype. A column that
  \<open>pd.read_html\<close> has given a numeric dtype is not in the model. \<open>pd.read_html\<close> has
  stripped the text of a cell and made one space of every run of whitespace in it; a
  single tab stays.
\<close>

datatype column_index = Index "string list" | MultiIndex "(string \<times> string) list"

record frame =
  columns :: column_index
  rows :: "string option list list"

text \<open>
  Of the page the program reads the \<open>id\<close> attributes of its \<open>div\<close> elements (line 59) and
  its tables (line 61).
\<close>

record document =
  div_ids :: "string list"
  tables :: "frame list"

section \<open>Positions (lines 57 to 59)\<close>

definition pos_list :: "string list" where
  "pos_list = [''GK'', ''CB'', ''FB'', ''MF'', ''AM'', ''FW'']"

text \<open>\<open>soup.find_all('div', {"id": i})\<close>: the \<open>div\<close> elements whose id is \<open>i\<close>.\<close>

definition find_all_div :: "document \<Rightarrow> string \<Rightarrow> string list" where
  "find_all_div doc i = filter (\<lambda>d. d = i) (div_ids doc)"

definition detect_positions :: "document \<Rightarrow> string list" where
  "detect_positions doc = filter (\<lambda>p. find_all_div doc (''div_scout_full_'' @ p) \<noteq> []) pos_list"

section \<open>Percentile tables (lines 61 to 71)\<close>

text \<open>
  A position table is what \<open>json.loads\<close> gives for one element of \<open>percentile_dfs\<close>:
  statistic name to field name to scalar. \<open>percentile_dfs\<close> holds JSON text and line 74
  and line 78 parse it anew at every use, so that no two uses share an object; the model
  keeps the parsed value.
\<close>

type_synonym position_table = "(string \<times> (string \<times> scalar) list) list"

text \<open>\<open>pd.read_html\<close> raises \<open>ValueError\<close> (no tables found) on a page without a table.\<close>

definition read_html :: "document \<Rightarrow> exn + frame list" where
  "read_html doc = (if tables doc = [] then Inl ValueError else Inr (tables doc))"

text \<open>\<open>drop_duplicates\<close> keeps the first of the rows that are equal in every cell.\<close>

fun drop_duplicates :: "'a list \<Rightarrow> 'a list" where
  "drop_duplicates [] = []"
| "drop_duplicates (x # xs) = x # drop_duplicates (filter (\<lambda>y. y \<noteq> x) xs)"

text \<open>
  Every row of a frame has the width of the header; where the page's row is shorter,
  \<open>pd.read_html\<close> has filled it with NaN.
\<close>

definition row_cells :: "nat \<Rightarrow> string option list \<Rightarrow> string option list" where
  "row_cells n r = take n r @ replicate (n - length r) None"

text \<open>\<open>dropna\<close> keeps the rows without NaN.\<close>

definition dropna :: "string option list list \<Rightarrow> string list list" where
  "dropna rs = List.map_filter those rs"

text \<open>
  The label of a row after \<open>set_index('Statistic')\<close>: the cell of the column of that
  name, or, when several columns have the name, the tuple of their cells.
\<close>

datatype label = Name string | Tuple "string list"

definition index_label :: "string list \<Rightarrow> label" where
  "index_label vs = (case vs of [v] \<Rightarrow> Name v | _ \<Rightarrow> Tuple vs)"

text \<open>
  \<open>repr\<close> of a string: in double quotes when it has a single quote and no double quote,
  in single quotes otherwise; the backslash, the quote and the characters that are not
  printable are escaped.
\<close>

definition hex_digit :: "nat \<Rightarrow> char" where
  "hex_digit n = (if n < 10 then char_of (48 + n) else char_of (87 + n))"

definition printable :: "char \<Rightarrow> bool" where
  "printable c = (let n = (of_char c :: nat) in (32 \<le> n \<and> n < 127) \<or> (161 \<le> n \<and> n \<noteq> 173))"

definition repr_char :: "char \<Rightarrow> char \<Rightarrow> string" where
  "repr_char q c =
     (if c = CHR 0x5C then [CHR 0x5C, CHR 0x5C]
      else if c = q then [CHR 0x5C, q]
      else if c = CHR 0x09 then [CHR 0x5C, CHR ''t'']
      else if c = CHR 0x0A then [CHR 0x5C, CHR ''n'']
      else if c = CHR 0x0D then [CHR 0x5C, CHR ''r'']
      else if printable c then [c]
      else [CHR 0x5C, CHR ''x'', hex_digit (of_char c div 16), hex_digit (of_char c mod 16)])"

definition repr_str :: "string \<Rightarrow> string" where
  "repr_str s =
     (let q = (if CHR 0x27 \<in> set s \<and> CHR 0x22 \<notin> set s then CHR 0x22 else CHR 0x27)
      in q # concat (map (repr_char q) s) @ [q])"

text \<open>
  The key that \<open>to_json\<close> writes for a label: the string itself, and for a tuple its
  \<open>str\<close>, which is its \<open>repr\<close>.
\<close>

fun label_key :: "label \<Rightarrow> string" where
  "label_key (Name s) = s"
| "label_key (Tuple vs) = ''('' @ join '', '' (map repr_str vs) @ '')''"

text \<open>
  The mask of line 68 on one row: its label and its remaining fields. A tuple is not
  equal to a string.
\<close>

definition keep_row :: "label \<times> (string \<times> string) list \<Rightarrow> bool" where
  "keep_row r =
     ((case map_of (snd r) ''Percentile'' of Some s \<Rightarrow> isdigit s | None \<Rightarrow> False)
      \<and> fst r \<noteq> Name ''Passes Blocked'')"

text \<open>
  \<open>df.T.to_json()\<close> (line 70) raises \<open>ValueError\<close> unless the row labels and the column
  labels are unique; then every statistic is a key and its fields are strings.
\<close>

definition to_json ::
  "string list \<Rightarrow> (label \<times> (string \<times> string) list) list \<Rightarrow> exn + position_table" where
  "to_json cols df =
     (if distinct cols \<and> distinct (map fst df)
      then Inr (map (\<lambda>r. (label_key (fst r), map (\<lambda>f. (fst f, Str (snd f))) (snd r))) df)
      else Inl ValueError)"

text \<open>
  A row without NaN is read as the pairs of column name and cell.
  \<open>set_index('Statistic')\<close> makes the cells of the columns of that name the label of the
  row and takes these columns out of the frame.
\<close>

definition row_label :: "string list \<Rightarrow> string list \<Rightarrow> label" where
  "row_label cols cells =
     index_label (map snd (filter (\<lambda>f. fst f = ''Statistic'') (zip cols cells)))"

definition row_fields :: "string list \<Rightarrow> string list \<Rightarrow> (string \<times> string) list" where
  "row_fields cols cells = filter (\<lambda>f. fst f \<noteq> ''Statistic'') (zip cols cells)"

text \<open>
  Lines 65 to 70 on one frame with a two-level header. \<open>set_index('Statistic')\<close> raises
  \<open>KeyError\<close> when no column has that name; \<open>df['Percentile']\<close> raises \<open>KeyError\<close> when no
  column is left with that name, and with several it is a frame, which has no \<open>str\<close>
  attribute.
\<close>

definition extract_table ::
  "(string \<times> string) list \<Rightarrow> string option list list \<Rightarrow> exn + position_table" where
  "extract_table hdr body =
     (let cols = map snd hdr;
          recs = dropna (drop_duplicates (map (row_cells (length cols)) body))
      in if ''Statistic'' \<notin> set cols then Inl KeyError
         else
           (let cols' = filter (\<lambda>c. c \<noteq> ''Statistic'') cols;
                df = map (\<lambda>cells. (row_label cols cells, row_fields cols cells)) recs
            in case filter (\<lambda>c. c = ''Percentile'') cols' of
                 [] \<Rightarrow> Inl KeyError
               | [c] \<Rightarrow> to_json cols' (filter keep_row df)
               | _ \<Rightarrow> Inl AttributeError))"

text \<open>
  The test of line 64, and the frames that pass it.
\<close>

definition is_multi :: "frame \<Rightarrow> bool" where
  "is_multi df = (case columns df of Index cs \<Rightarrow> False | MultiIndex hdr \<Rightarrow> True)"

definition percentile_frames :: "frame list \<Rightarrow> frame list" where
  "percentile_frames dfs = filter is_multi dfs"

text \<open>The loop of lines 63 to 71: frames with a plain header are passed over.\<close>

fun percentile_tables :: "frame list \<Rightarrow> exn + position_table list" where
  "percentile_tables [] = Inr []"
| "percentile_tables (df # dfs) =
     (case columns df of
        Index cs \<Rightarrow> percentile_tables dfs
      | MultiIndex hdr \<Rightarrow>
          (case extract_table hdr (rows df) of
             Inl e \<Rightarrow> Inl e
           | Inr t \<Rightarrow>
               (case percentile_tables dfs of
                  Inl e \<Rightarrow> Inl e
                | Inr ts \<Rightarrow> Inr (t # ts))))"

section \<open>Merging the tables (lines 73 to 78)\<close>

text \<open>
  A field of a merged statistic is a scalar of the first table, or, under \<open>Percentile\<close>,
  the dict from position to percentile.
\<close>

datatype field_value = Scalar scalar | Mapping "(string \<times> scalar) list"

type_synonym merged = "(string \<times> (string \<times> field_value) list) list"

text \<open>
  The right-hand side of line 78, \<open>json.loads(percentile_dfs[i])[stat]['Percentile']\<close>:
  \<open>IndexError\<close> when there is no table \<open>i\<close>, \<open>KeyError\<close> when table \<open>i\<close> has no key \<open>stat\<close>
  or the statistic no field \<open>Percentile\<close>.
\<close>

definition percentile_at :: "position_table list \<Rightarrow> nat \<Rightarrow> string \<Rightarrow> exn + scalar" where
  "percentile_at percentile_dfs i stat =
     (if length percentile_dfs \<le> i then Inl IndexError
      else (case map_of (percentile_dfs ! i) stat of
              None \<Rightarrow> Inl KeyError
            | Some flds \<Rightarrow>
                (case map_of flds ''Percentile'' of
                   None \<Rightarrow> Inl KeyError
                 | Some v \<Rightarrow> Inr v)))"

text \<open>
  The loop of lines 77 and 78 over \<open>enumerate(pos)\<close>; \<open>pm\<close> is the dict
  \<open>data[stat]['Percentile']\<close>, empty at the start (line 76).
\<close>

fun fill_percentiles ::
  "position_table list \<Rightarrow> string \<Rightarrow> (nat \<times> string) list \<Rightarrow> (string \<times> scalar) list
     \<Rightarrow> exn + (string \<times> scalar) list" where
  "fill_percentiles percentile_dfs stat [] pm = Inr pm"
| "fill_percentiles percentile_dfs stat ((i, p) # ips) pm =
     (case percentile_at percentile_dfs i stat of
        Inl e \<Rightarrow> Inl e
      | Inr v \<Rightarrow> fill_percentiles percentile_dfs stat ips (AList.update p v pm))"

definition enumerate_list :: "'a list \<Rightarrow> (nat \<times> 'a) list" where
  "enumerate_list xs = zip [0..<length xs] xs"

text \<open>
  \<open>data[stat]\<close> after lines 75 to 78: the fields of the first table, \<open>Percentile\<close>
  replaced by the dict \<open>pm\<close>.
\<close>

definition merged_entry ::
  "(string \<times> scalar) list \<Rightarrow> (string \<times> scalar) list \<Rightarrow> (string \<times> field_value) list" where
  "merged_entry flds pm =
     AList.update ''Percentile'' (Mapping pm) (map (\<lambda>f. (fst f, Scalar (snd f))) flds)"

text \<open>
  The loop of lines 74 to 78 over the statistics of the first table. An exception of the
  inner loop leaves the function, so that the entry can be stored once its percentiles
  are known.
\<close>

fun merge_loop ::
  "position_table list \<Rightarrow> string list \<Rightarrow> position_table \<Rightarrow> merged \<Rightarrow> exn + merged" where
  "merge_loop percentile_dfs pos [] data = Inr data"
| "merge_loop percentile_dfs pos (sf # df) data =
     (case fill_percentiles percentile_dfs (fst sf) (enumerate_list pos) [] of
        Inl e \<Rightarrow> Inl e
      | Inr pm \<Rightarrow>
          merge_loop percentile_dfs pos df
            (AList.update (fst sf) (merged_entry (snd sf) pm) data))"

text \<open>\<open>percentile_dfs[0]\<close> raises \<open>IndexError\<close> on the empty list (line 74).\<close>

definition merge_tables :: "string list \<Rightarrow> position_table list \<Rightarrow> exn + merged" where
  "merge_tables pos percentile_dfs =
     (case percentile_dfs of
        [] \<Rightarrow> Inl IndexError
      | df # rest \<Rightarrow> merge_loop percentile_dfs pos df [])"

section \<open>\<open>get_scouting_report\<close> (lines 48 to 83)\<close>

record report =
  data :: merged
  positions :: "string list"
  ident :: string

text \<open>
  \<open>fetch idx name\<close> is the page that \<open>requests.get\<close> returns for the address of line 55.
\<close>

definition report_of_document :: "string \<Rightarrow> document \<Rightarrow> exn + report" where
  "report_of_document idx doc =
     (let pos = detect_positions doc
      in case read_html doc of
           Inl e \<Rightarrow> Inl e
         | Inr dfs \<Rightarrow>
             (case percentile_tables dfs of
                Inl e \<Rightarrow> Inl e
              | Inr percentile_dfs \<Rightarrow>
                  (case merge_tables pos percentile_dfs of
                     Inl e \<Rightarrow> Inl e
                   | Inr d \<Rightarrow> Inr \<lparr>data = d, positions = pos, ident = idx\<rparr>)))"

definition get_scouting_report ::
  "(string \<Rightarrow> string \<Rightarrow> document) \<Rightarrow> string \<Rightarrow> string \<Rightarrow> exn + report" where
  "get_scouting_report fetch idx name = report_of_document idx (fetch idx name)"

section \<open>The driver (lines 103 to 124)\<close>

text \<open>
  One row of the index frame \<open>df\<close> after lines 96 to 101. \<open>href\<close> comes from the links of
  the page and is a string; the other cells are text or NaN, as \<open>pd.read_html\<close> has
  left them.
\<close>

record player_row =
  href :: string
  Player :: "string option"
  Min' :: "string option"
  Squad :: "string option"
  Nation :: "string option"
  Comp :: "string option"
  Age :: "string option"

record player_record =
  name :: "string option"
  rec_positions :: "string list"
  mins :: "string option"
  team :: "string option"
  nation :: string
  league :: string
  age :: "string option"
  profile :: string
  rec_data :: merged

text \<open>
  The dict of lines 109 to 119. A NaN cell is a float and has no \<open>split\<close>:
  \<open>AttributeError\<close>.
\<close>

definition build_record :: "player_row \<Rightarrow> report \<Rightarrow> exn + player_record" where
  "build_record row r =
     (case Nation row of
        None \<Rightarrow> Inl AttributeError
      | Some n \<Rightarrow>
          (case Comp row of
             None \<Rightarrow> Inl AttributeError
           | Some c \<Rightarrow>
               Inr \<lparr>name = Player row,
                    rec_positions = positions r,
                    mins = Min' row,
                    team = Squad row,
                    nation = last (split_on CHR '' '' n),
                    league = join '' '' (tl (split_on CHR '' '' c)),
                    age = Age row,
                    profile = ''https://fbref.com'' @ href row,
                    rec_data = data r\<rparr>))"

text \<open>
  The body of the \<open>try\<close> (lines 106 to 119): the last two pieces of \<open>href\<close> are the
  arguments of \<open>get_scouting_report\<close>; with one piece only the call lacks an argument.
\<close>

definition process_row ::
  "(string \<Rightarrow> string \<Rightarrow> document) \<Rightarrow> player_row \<Rightarrow> exn + (string \<times> player_record)" where
  "process_row fetch row =
     (let parts = split_on CHR ''/'' (href row)
      in case drop (length parts - 2) parts of
           [idx, nm] \<Rightarrow>
             (case get_scouting_report fetch idx nm of
                Inl e \<Rightarrow> Inl e
              | Inr r \<Rightarrow>
                  (case build_record row r of
                     Inl e \<Rightarrow> Inl e
                   | Inr pr \<Rightarrow> Inr (ident r, pr)))
         | _ \<Rightarrow> Inl TypeError)"

type_synonym dataset = "(string \<times> player_record) list"

text \<open>
  The loop of lines 104 to 121: \<open>ValueError\<close> is passed over, any other exception ends the
  run.
\<close>

fun collect ::
  "(string \<Rightarrow> string \<Rightarrow> document) \<Rightarrow> player_row list \<Rightarrow> dataset \<Rightarrow> exn + dataset" where
  "collect fetch [] reports = Inr reports"
| "collect fetch (row # rest) reports =
     (case process_row fetch row of
        Inl ValueError \<Rightarrow> collect fetch rest reports
      | Inl e \<Rightarrow> Inl e
      | Inr kr \<Rightarrow> collect fetch rest (AList.update (fst kr) (snd kr) reports))"

text \<open>
  The run: \<open>Inr reports\<close> is the dict written to \<open>scouting_reports.json\<close> (line 124),
  \<open>Inl e\<close> a run that exception \<open>e\<close> ended before the file was opened.
\<close>

definition main :: "(string \<Rightarrow> string \<Rightarrow> document) \<Rightarrow> player_row list \<Rightarrow> exn + dataset" where
  "main fetch df = collect fetch df []"

section \<open>The words of the specification\<close>

text \<open>
  A whitespace-separated token is a maximal run of characters that are not whitespace
  (\<open>str.split()\<close> without argument).
\<close>

definition is_space :: "char \<Rightarrow> bool" where
  "is_space c = ((of_char c :: nat) \<in> {9, 10, 11, 12, 13, 32})"

fun ws_tokens :: "string \<Rightarrow> string list" where
  "ws_tokens [] = []"
| "ws_tokens (x # xs) =
     (if is_space x then ws_tokens xs
      else (case xs of
              [] \<Rightarrow> [[x]]
            | y # ys \<Rightarrow>
                if is_space y then [x] # ws_tokens xs
                else (case ws_tokens xs of w # ws \<Rightarrow> (x # w) # ws | [] \<Rightarrow> [[x]])))"

text \<open>
  A percentile that is an integer from 0 to 100, read generously: the number itself, or
  its decimal numeral as a string.
\<close>

fun decimal_value :: "nat \<Rightarrow> string \<Rightarrow> nat option" where
  "decimal_value acc [] = Some acc"
| "decimal_value acc (c # cs) =
     (let n = (of_char c :: nat)
      in if 48 \<le> n \<and> n \<le> 57 then decimal_value (10 * acc + (n - 48)) cs else None)"

definition integer_0_100 :: "scalar \<Rightarrow> bool" where
  "integer_0_100 v =
     (case v of
        Num q \<Rightarrow> q \<in> of_nat ` {0..100}
      | Str s \<Rightarrow> s \<noteq> [] \<and> (case decimal_value 0 s of Some n \<Rightarrow> n \<le> 100 | None \<Rightarrow> False))"

section \<open>Example pages\<close>

text \<open>The two tables of the end-to-end example, as \<open>json.loads\<close> returns them.\<close>

definition table_A :: position_table where
  "table_A =
     [(''Goals'', [(''Per 90'', Num (1 / 2)), (''Percentile'', Str ''80'')]),
      (''Assists'', [(''Per 90'', Num (3 / 10)), (''Percentile'', Str ''60'')])]"

definition table_B :: position_table where
  "table_B =
     [(''Goals'', [(''Per 90'', Num (1 / 2)), (''Percentile'', Str ''70'')]),
      (''Key Passes'', [(''Per 90'', Num (6 / 5)), (''Percentile'', Str ''90'')])]"

definition table_B_assists :: position_table where
  "table_B_assists =
     table_B @ [(''Assists'', [(''Per 90'', Num (3 / 10)), (''Percentile'', Str ''50'')])]"

text \<open>The merged data that the example expects.\<close>

definition expected_example :: merged where
  "expected_example =
     [(''Goals'', [(''Per 90'', Scalar (Num (1 / 2))),
                   (''Percentile'', Mapping [(''FW'', Num 80), (''AM'', Num 70)])]),
      (''Assists'', [(''Per 90'', Scalar (Num (3 / 10))),
                     (''Percentile'', Mapping [(''FW'', Num 60)])])]"

text \<open>The header of a percentile table and the rows that a table repeats between sections.\<close>

definition scout_header :: "(string \<times> string) list" where
  "scout_header =
     [(''Standard Stats'', ''Statistic''), (''Standard Stats'', ''Per 90''),
      (''Standard Stats'', ''Percentile'')]"

definition header_row :: "string option list" where
  "header_row = [Some ''Statistic'', Some ''Per 90'', Some ''Percentile'']"

definition blank_row :: "string option list" where
  "blank_row = [None, None, None]"

definition stat_row :: "string \<Rightarrow> string \<Rightarrow> string \<Rightarrow> string option list" where
  "stat_row s r p = [Some s, Some r, Some p]"

definition bio_frame :: frame where
  "bio_frame = \<lparr>columns = Index [''Season'', ''Squad''], rows = [[Some ''2020-2021'', Some ''Arsenal'']]\<rparr>"

text \<open>A page with sections for AM and FW, a table for each, and a table of another kind.\<close>

definition page_full :: document where
  "page_full =
     \<lparr>div_ids = [''content'', ''div_scout_full_FW'', ''div_scout_full_AM''],
      tables =
        [bio_frame,
         \<lparr>columns = MultiIndex scout_header,
          rows = [stat_row ''Goals'' ''0.50'' ''80'', stat_row ''Assists'' ''0.30'' ''60'',
                  blank_row, header_row,
                  stat_row ''Passes Blocked'' ''1.20'' ''55'',
                  stat_row ''Goals'' ''0.50'' ''80''] \<rparr>,
         \<lparr>columns = MultiIndex scout_header,
          rows = [stat_row ''Goals'' ''0.50'' ''70'', stat_row ''Key Passes'' ''1.20'' ''90'',
                  header_row, stat_row ''Assists'' ''0.30'' ''50'',
                  stat_row ''Passes Blocked'' ''1.20'' ''40''] \<rparr>]\<rparr>"

definition report_full :: report where
  "report_full =
     \<lparr>data =
        [(''Goals'', [(''Per 90'', Scalar (Str ''0.50'')),
                      (''Percentile'', Mapping [(''AM'', Str ''80''), (''FW'', Str ''70'')])]),
         (''Assists'', [(''Per 90'', Scalar (Str ''0.30'')),
                        (''Percentile'', Mapping [(''AM'', Str ''60''), (''FW'', Str ''50'')])])],
      positions = [''AM'', ''FW''],
      ident = ''e46012d4''\<rparr>"

text \<open>The second table has no row for Assists.\<close>

definition page_sparse :: document where
  "page_sparse =
     \<lparr>div_ids = [''div_scout_full_AM'', ''div_scout_full_FW''],
      tables =
        [\<lparr>columns = MultiIndex scout_header,
          rows = [header_row, stat_row ''Goals'' ''0.50'' ''80'',
                  stat_row ''Assists'' ''0.30'' ''60''] \<rparr>,
         \<lparr>columns = MultiIndex scout_header,
          rows = [header_row, stat_row ''Goals'' ''0.50'' ''70''] \<rparr>]\<rparr>"

text \<open>A page whose only table is not a percentile table, and a page without a table.\<close>

definition page_bio :: document where
  "page_bio = \<lparr>div_ids = [''content''], tables = [bio_frame]\<rparr>"

definition page_bare :: document where
  "page_bare = \<lparr>div_ids = [''content''], tables = []\<rparr>"

text \<open>A percentile cell of three digits.\<close>

definition page_250 :: document where
  "page_250 =
     \<lparr>div_ids = [''div_scout_full_FW''],
      tables =
        [\<lparr>columns = MultiIndex scout_header,
          rows = [header_row, stat_row ''Goals'' ''0.50'' ''250''] \<rparr>]\<rparr>"

text \<open>
  Two sections and one table: once with no ranked row in the table, once with one.
\<close>

definition page_unranked :: document where
  "page_unranked =
     \<lparr>div_ids = [''div_scout_full_GK'', ''div_scout_full_CB''],
      tables = [\<lparr>columns = MultiIndex scout_header, rows = [header_row, blank_row] \<rparr>]\<rparr>"

definition page_one_table :: document where
  "page_one_table =
     \<lparr>div_ids = [''div_scout_full_GK'', ''div_scout_full_CB''],
      tables =
        [\<lparr>columns = MultiIndex scout_header,
          rows = [header_row, stat_row ''Goals'' ''0.50'' ''80''] \<rparr>]\<rparr>"

definition site :: "string \<Rightarrow> string \<Rightarrow> document" where
  "site idx nm =
     (if idx = ''e46012d4'' then page_full
      else if idx = ''0a1b2c3d'' then page_sparse
      else if idx = ''11111111'' then page_bio
      else if idx = ''22222222'' then page_250
      else if idx = ''33333333'' then page_unranked
      else if idx = ''44444444'' then page_one_table
      else page_bare)"

definition index_row :: "string \<Rightarrow> string \<Rightarrow> string \<Rightarrow> player_row" where
  "index_row idx nm nt =
     \<lparr>href = ''/en/players/'' @ idx @ ''/'' @ nm, Player = Some nm, Min' = Some ''1234'',
      Squad = Some ''Arsenal'', Nation = Some nt, Comp = Some ''eng Premier League'',
      Age = Some ''24''\<rparr>"

definition record_full :: "string \<Rightarrow> player_record" where
  "record_full nm =
     \<lparr>name = Some nm, rec_positions = [''AM'', ''FW''], mins = Some ''1234'',
      team = Some ''Arsenal'', nation = ''ENG'', league = ''Premier League'', age = Some ''24'',
      profile = ''https://fbref.com/en/players/e46012d4/'' @ nm, rec_data = data report_full\<rparr>"

section \<open>Dicts and the inner loop\<close>

lemma update_set_subset: "set (AList.update k v al) \<subseteq> insert (k, v) (set al)"
  by (induction al) auto

lemma update_keys: "fst ` set (AList.update k v al) = insert k (fst ` set al)"
  by (induction al) auto

lemma percentile_at_error:
  "percentile_at dfs i stat = Inl e \<Longrightarrow> e = IndexError \<or> e = KeyError"
  by (auto simp: percentile_at_def split: if_splits option.splits)

lemma percentile_at_index_error:
  "length dfs \<le> i \<Longrightarrow> percentile_at dfs i stat = Inl IndexError"
  by (simp add: percentile_at_def)

lemma percentile_at_in_range:
  "i < length dfs \<Longrightarrow> percentile_at dfs i stat = Inl e \<Longrightarrow> e = KeyError"
  by (auto simp: percentile_at_def split: if_splits option.splits)

lemma percentile_at_missing:
  "i < length dfs \<Longrightarrow> stat \<notin> fst ` set (dfs ! i) \<Longrightarrow> percentile_at dfs i stat = Inl KeyError"
proof -
  assume a: "i < length dfs" and b: "stat \<notin> fst ` set (dfs ! i)"
  from b have "map_of (dfs ! i) stat = None" by (simp add: map_of_eq_None_iff)
  with a show ?thesis by (simp add: percentile_at_def)
qed

lemma fill_keys:
  "fill_percentiles dfs stat ips pm = Inr pm' \<Longrightarrow>
     fst ` set pm' = fst ` set pm \<union> snd ` set ips"
proof (induction ips arbitrary: pm)
  case Nil then show ?case by simp
next
  case (Cons ip ips)
  obtain i q where ip: "ip = (i, q)" by (cases ip)
  from Cons.prems ip obtain w where
    rest: "fill_percentiles dfs stat ips (AList.update q w pm) = Inr pm'"
    by (auto split: sum.splits)
  from Cons.IH [OF rest] have "fst ` set pm' = insert q (fst ` set pm) \<union> snd ` set ips"
    by (simp add: update_keys)
  with ip show ?case by auto
qed

lemma fill_values:
  "fill_percentiles dfs stat ips pm = Inr pm' \<Longrightarrow> (p, v) \<in> set pm' \<Longrightarrow>
     (p, v) \<in> set pm \<or> (\<exists>i. percentile_at dfs i stat = Inr v)"
proof (induction ips arbitrary: pm)
  case Nil then show ?case by simp
next
  case (Cons ip ips)
  obtain i q where ip: "ip = (i, q)" by (cases ip)
  from Cons.prems(1) ip obtain w where w: "percentile_at dfs i stat = Inr w"
    and rest: "fill_percentiles dfs stat ips (AList.update q w pm) = Inr pm'"
    by (auto split: sum.splits)
  from Cons.IH [OF rest Cons.prems(2)] show ?case
    using update_set_subset [of q w pm] w by auto
qed

lemma fill_error:
  "fill_percentiles dfs stat ips pm = Inl e \<Longrightarrow> e = IndexError \<or> e = KeyError"
  by (induction ips arbitrary: pm) (auto split: sum.splits dest: percentile_at_error)

lemma fill_out_of_range:
  "(i, p) \<in> set ips \<Longrightarrow> length dfs \<le> i \<Longrightarrow>
     \<exists>e. fill_percentiles dfs stat ips pm = Inl e"
  by (induction ips arbitrary: pm) (auto split: sum.splits simp: percentile_at_index_error)

lemma fill_missing:
  "(i, p) \<in> set ips \<Longrightarrow> percentile_at dfs i stat = Inl e0 \<Longrightarrow>
     \<exists>e. fill_percentiles dfs stat ips pm = Inl e"
  by (induction ips arbitrary: pm) (auto split: sum.splits)

lemma fill_in_range_error:
  "\<forall>ip \<in> set ips. fst ip < length dfs \<Longrightarrow> fill_percentiles dfs stat ips pm = Inl e \<Longrightarrow>
     e = KeyError"
  by (induction ips arbitrary: pm) (auto split: sum.splits dest: percentile_at_in_range)

lemma fill_total:
  "\<forall>ip \<in> set ips. \<exists>v. percentile_at dfs (fst ip) stat = Inr v \<Longrightarrow>
     \<exists>pm'. fill_percentiles dfs stat ips pm = Inr pm'"
  by (induction ips arbitrary: pm) (auto split: sum.splits)

lemma fill_other_key:
  "fill_percentiles dfs stat ips pm = Inr pm' \<Longrightarrow> p \<notin> snd ` set ips \<Longrightarrow>
     map_of pm' p = map_of pm p"
  by (induction ips arbitrary: pm) (auto split: sum.splits simp: update_conv')

lemma fill_copies:
  "fill_percentiles dfs stat ips pm = Inr pm' \<Longrightarrow> distinct (map snd ips) \<Longrightarrow>
     (i, p) \<in> set ips \<Longrightarrow> percentile_at dfs i stat = Inr v \<Longrightarrow> map_of pm' p = Some v"
proof (induction ips arbitrary: pm)
  case Nil then show ?case by simp
next
  case (Cons ip ips)
  obtain j q where ip: "ip = (j, q)" by (cases ip)
  from Cons.prems(1) ip obtain w where w: "percentile_at dfs j stat = Inr w"
    and rest: "fill_percentiles dfs stat ips (AList.update q w pm) = Inr pm'"
    by (auto split: sum.splits)
  show ?case
  proof (cases "(i, p) \<in> set ips")
    case True
    with Cons.IH [OF rest] Cons.prems show ?thesis by simp
  next
    case False
    with Cons.prems(3) ip have eq: "i = j" "p = q" by auto
    from Cons.prems(2) ip eq have "p \<notin> snd ` set ips" by auto
    from fill_other_key [OF rest this] eq w Cons.prems(4) show ?thesis
      by (simp add: update_conv')
  qed
qed

lemma enumerate_snd: "map snd (enumerate_list xs) = xs"
  by (simp add: enumerate_list_def)

lemma enumerate_set: "snd ` set (enumerate_list xs) = set xs"
  using enumerate_snd [of xs] by (metis set_map)

lemma enumerate_mem: "(i, p) \<in> set (enumerate_list xs) \<longleftrightarrow> i < length xs \<and> xs ! i = p"
proof
  assume "(i, p) \<in> set (enumerate_list xs)"
  then obtain n where "n < length xs" "[0..<length xs] ! n = i" "xs ! n = p"
    by (auto simp: enumerate_list_def in_set_zip)
  then show "i < length xs \<and> xs ! i = p" by simp
next
  assume a: "i < length xs \<and> xs ! i = p"
  then have "[0..<length xs] ! i = i \<and> xs ! i = p \<and> i < length xs" by simp
  then show "(i, p) \<in> set (enumerate_list xs)"
    unfolding enumerate_list_def in_set_zip by (intro exI [of _ i]) simp
qed

section \<open>The loop over the statistics\<close>

lemma merged_entry_percentile: "map_of (merged_entry flds pm) ''Percentile'' = Some (Mapping pm)"
  by (simp add: merged_entry_def update_conv')

lemma merge_loop_keys:
  "merge_loop dfs pos df acc = Inr d \<Longrightarrow> fst ` set d = fst ` set acc \<union> fst ` set df"
proof (induction df arbitrary: acc)
  case Nil then show ?case by simp
next
  case (Cons sf df)
  from Cons.prems obtain pm where
    rest: "merge_loop dfs pos df (AList.update (fst sf) (merged_entry (snd sf) pm) acc) = Inr d"
    by (auto split: sum.splits)
  from Cons.IH [OF rest] show ?case by (auto simp: update_keys)
qed

lemma merge_loop_entry:
  "merge_loop dfs pos df acc = Inr d \<Longrightarrow> (stat, e) \<in> set d \<Longrightarrow>
     (stat, e) \<in> set acc \<or>
     (\<exists>flds pm. (stat, flds) \<in> set df \<and>
        fill_percentiles dfs stat (enumerate_list pos) [] = Inr pm \<and> e = merged_entry flds pm)"
proof (induction df arbitrary: acc)
  case Nil then show ?case by simp
next
  case (Cons sf df)
  from Cons.prems(1) obtain pm where
    pm: "fill_percentiles dfs (fst sf) (enumerate_list pos) [] = Inr pm" and
    rest: "merge_loop dfs pos df (AList.update (fst sf) (merged_entry (snd sf) pm) acc) = Inr d"
    by (auto split: sum.splits)
  from Cons.IH [OF rest Cons.prems(2)] show ?case
  proof
    assume "(stat, e) \<in> set (AList.update (fst sf) (merged_entry (snd sf) pm) acc)"
    with update_set_subset [of "fst sf" "merged_entry (snd sf) pm" acc]
    have "(stat, e) = (fst sf, merged_entry (snd sf) pm) \<or> (stat, e) \<in> set acc" by auto
    then show ?thesis
    proof
      assume eq: "(stat, e) = (fst sf, merged_entry (snd sf) pm)"
      then have "(stat, snd sf) \<in> set (sf # df)" by (cases sf) auto
      with eq pm show ?thesis by blast
    qed simp
  next
    assume "\<exists>flds pm. (stat, flds) \<in> set df \<and>
        fill_percentiles dfs stat (enumerate_list pos) [] = Inr pm \<and> e = merged_entry flds pm"
    then show ?thesis by auto
  qed
qed

lemma merge_loop_error:
  "merge_loop dfs pos df acc = Inl e \<Longrightarrow> e = IndexError \<or> e = KeyError"
  by (induction df arbitrary: acc) (auto split: sum.splits dest: fill_error)

lemma merge_loop_fails:
  "sf \<in> set df \<Longrightarrow> fill_percentiles dfs (fst sf) (enumerate_list pos) [] = Inl e0 \<Longrightarrow>
     \<exists>e. merge_loop dfs pos df acc = Inl e"
  by (induction df arbitrary: acc) (auto split: sum.splits)

lemma merge_loop_total:
  "\<forall>sf \<in> set df. \<exists>pm. fill_percentiles dfs (fst sf) (enumerate_list pos) [] = Inr pm \<Longrightarrow>
     \<exists>d. merge_loop dfs pos df acc = Inr d"
  by (induction df arbitrary: acc) (auto split: sum.splits)

lemma merge_loop_succeeds:
  "merge_loop dfs pos df acc = Inr d \<Longrightarrow> sf \<in> set df \<Longrightarrow>
     \<exists>pm. fill_percentiles dfs (fst sf) (enumerate_list pos) [] = Inr pm"
  by (induction df arbitrary: acc) (auto split: sum.splits)

lemma fill_succeeds:
  "fill_percentiles dfs stat ips pm = Inr pm' \<Longrightarrow> (i, p) \<in> set ips \<Longrightarrow>
     \<exists>v. percentile_at dfs i stat = Inr v"
  by (induction ips arbitrary: pm) (auto split: sum.splits)

lemma merge_tables_keys:
  "merge_tables pos (t # ts) = Inr d \<Longrightarrow> fst ` set d = fst ` set t"
proof -
  assume "merge_tables pos (t # ts) = Inr d"
  then have "merge_loop (t # ts) pos t [] = Inr d" by (simp add: merge_tables_def)
  from merge_loop_keys [OF this] show ?thesis by simp
qed

lemma merge_tables_entry:
  "merge_tables pos dfs = Inr d \<Longrightarrow> (stat, e) \<in> set d \<Longrightarrow>
     \<exists>flds pm. fill_percentiles dfs stat (enumerate_list pos) [] = Inr pm \<and> e = merged_entry flds pm"
proof -
  assume m: "merge_tables pos dfs = Inr d" and mem: "(stat, e) \<in> set d"
  from m obtain t ts where dfs: "dfs = t # ts" by (cases dfs) (auto simp: merge_tables_def)
  with m have "merge_loop dfs pos t [] = Inr d" by (simp add: merge_tables_def)
  from merge_loop_entry [OF this mem] show ?thesis by auto
qed

lemma merge_tables_nonempty: "merge_tables pos dfs = Inr d \<Longrightarrow> dfs \<noteq> []"
  by (auto simp: merge_tables_def)

section \<open>What the extraction leaves in a table\<close>

lemma map_of_str_fields:
  "map_of (map (\<lambda>f. (fst f, Str (snd f))) flds) k = map_option Str (map_of flds k)"
  by (induction flds) auto

lemma label_key_passes_blocked:
  "label_key l = ''Passes Blocked'' \<Longrightarrow> l = Name ''Passes Blocked''"
  by (cases l) auto

lemma to_json_rows:
  "to_json cols df = Inr t \<Longrightarrow> (stat, flds) \<in> set t \<Longrightarrow>
     \<exists>r \<in> set df. stat = label_key (fst r) \<and> flds = map (\<lambda>f. (fst f, Str (snd f))) (snd r)"
  by (auto simp: to_json_def split: if_splits)

lemma extract_table_kept:
  "extract_table hdr body = Inr t \<Longrightarrow>
     \<exists>cols df. to_json cols (filter keep_row df) = Inr t"
  by (auto simp: extract_table_def Let_def split: list.splits if_splits)

lemma extract_table_rows:
  assumes "extract_table hdr body = Inr t" and "(stat, flds) \<in> set t"
  shows "stat \<noteq> ''Passes Blocked'' \<and> (\<exists>s. map_of flds ''Percentile'' = Some (Str s) \<and> isdigit s)"
proof -
  from extract_table_kept [OF assms(1)] obtain cols df where
    "to_json cols (filter keep_row df) = Inr t" by blast
  from to_json_rows [OF this assms(2)] obtain r where
    r: "r \<in> set df" "keep_row r" "stat = label_key (fst r)"
       "flds = map (\<lambda>f. (fst f, Str (snd f))) (snd r)"
    by auto
  from r(2) obtain s where "map_of (snd r) ''Percentile'' = Some s" "isdigit s"
    "fst r \<noteq> Name ''Passes Blocked''"
    by (auto simp: keep_row_def split: option.splits)
  with r(3,4) label_key_passes_blocked [of "fst r"] show ?thesis
    by (auto simp: map_of_str_fields)
qed

lemma percentile_tables_extracted:
  "percentile_tables dfs = Inr ts \<Longrightarrow> t \<in> set ts \<Longrightarrow>
     \<exists>hdr body. extract_table hdr body = Inr t"
proof (induction dfs arbitrary: ts)
  case Nil then show ?case by simp
next
  case (Cons df dfs)
  show ?case
  proof (cases "columns df")
    case (Index cs)
    with Cons show ?thesis by simp
  next
    case (MultiIndex hdr)
    with Cons.prems(1) obtain t0 ts0 where
      t0: "extract_table hdr (rows df) = Inr t0" and
      ts0: "percentile_tables dfs = Inr ts0" and ts: "ts = t0 # ts0"
      by (auto split: sum.splits)
    from Cons.prems(2) ts have "t = t0 \<or> t \<in> set ts0" by auto
    then show ?thesis using t0 Cons.IH [OF ts0] by blast
  qed
qed

lemma drop_duplicates_set: "set (drop_duplicates xs) = set xs"
  by (induction xs rule: drop_duplicates.induct) auto

lemma dropna_mem: "cells \<in> set (dropna rs) \<longleftrightarrow> (\<exists>r \<in> set rs. those r = Some cells)"
  unfolding dropna_def by (induction rs) (auto split: option.splits)

lemma extract_table_source:
  assumes "extract_table hdr body = Inr t" and "(stat, flds) \<in> set t"
  shows "\<exists>row \<in> set body. \<exists>cells. those (row_cells (length hdr) row) = Some cells
           \<and> label_key (row_label (map snd hdr) cells) = stat
           \<and> flds = map (\<lambda>f. (fst f, Str (snd f))) (row_fields (map snd hdr) cells)"
proof -
  let ?cols = "map snd hdr"
  let ?recs = "dropna (drop_duplicates (map (row_cells (length ?cols)) body))"
  let ?df = "map (\<lambda>cells. (row_label ?cols cells, row_fields ?cols cells)) ?recs"
  from assms(1) obtain cols' where "to_json cols' (filter keep_row ?df) = Inr t"
    by (auto simp: extract_table_def Let_def split: list.splits if_splits)
  from to_json_rows [OF this assms(2)] obtain cells where
    c: "cells \<in> set ?recs" and s: "stat = label_key (row_label ?cols cells)"
    and f: "flds = map (\<lambda>f. (fst f, Str (snd f))) (row_fields ?cols cells)" by auto
  from c obtain row where "row \<in> set body" "those (row_cells (length hdr) row) = Some cells"
    by (auto simp: dropna_mem drop_duplicates_set)
  with s f show ?thesis by blast
qed

lemma percentile_tables_frames:
  "percentile_tables dfs = Inr ts \<Longrightarrow>
     list_all2 (\<lambda>df t. \<exists>hdr. columns df = MultiIndex hdr \<and> extract_table hdr (rows df) = Inr t)
       (percentile_frames dfs) ts"
proof (induction dfs arbitrary: ts)
  case Nil then show ?case by (simp add: percentile_frames_def)
next
  case (Cons df dfs)
  show ?case
  proof (cases "columns df")
    case (Index cs)
    with Cons show ?thesis by (simp add: percentile_frames_def is_multi_def)
  next
    case (MultiIndex hdr)
    with Cons.prems obtain t0 ts0 where
      t0: "extract_table hdr (rows df) = Inr t0" and
      ts0: "percentile_tables dfs = Inr ts0" and ts: "ts = t0 # ts0"
      by (auto split: sum.splits)
    from Cons.IH [OF ts0] t0 ts MultiIndex show ?thesis
      by (simp add: percentile_frames_def is_multi_def)
  qed
qed

text \<open>Two columns named \<open>Statistic\<close>: the key is the \<open>repr\<close> of the pair of cells.\<close>

lemma extract_table_two_statistic_columns:
  "extract_table
     [(''Standard Stats'', ''Statistic''), (''Standard Stats'', ''Statistic''),
      (''Standard Stats'', ''Per 90''), (''Standard Stats'', ''Percentile'')]
     [[Some ''Passes Blocked'', Some ''Passes Blocked'', Some ''1.20'', Some ''55'']] =
   Inr [(''('' @ [CHR 0x27] @ ''Passes Blocked'' @ [CHR 0x27] @ '', '' @ [CHR 0x27]
           @ ''Passes Blocked'' @ [CHR 0x27] @ '')'',
         [(''Per 90'', Str ''1.20''), (''Percentile'', Str ''55'')])]"
  by code_simp

lemma report_parts:
  "report_of_document idx doc = Inr r \<Longrightarrow>
     \<exists>ts. tables doc \<noteq> [] \<and> percentile_tables (tables doc) = Inr ts \<and>
       merge_tables (detect_positions doc) ts = Inr (data r) \<and>
       positions r = detect_positions doc \<and> ident r = idx"
  by (auto simp: report_of_document_def read_html_def Let_def split: if_splits sum.splits)

lemma percentile_at_extracted:
  assumes "\<forall>t \<in> set dfs. \<exists>hdr body. extract_table hdr body = Inr t"
    and "percentile_at dfs i stat = Inr v"
  shows "\<exists>s. v = Str s \<and> isdigit s"
proof -
  from assms(2) obtain flds where i: "i < length dfs" and
    a: "map_of (dfs ! i) stat = Some flds" and b: "map_of flds ''Percentile'' = Some v"
    by (auto simp: percentile_at_def split: if_splits option.splits)
  from i assms(1) obtain hdr body where "extract_table hdr body = Inr (dfs ! i)"
    using nth_mem by blast
  from extract_table_rows [OF this map_of_SomeD [OF a]] b show ?thesis by auto
qed

section \<open>The driver's loop\<close>

lemma build_record_parts:
  "build_record row r = Inr pr \<Longrightarrow>
     \<exists>n c. Nation row = Some n \<and> Comp row = Some c \<and>
       pr = \<lparr>name = Player row, rec_positions = positions r, mins = Min' row,
             team = Squad row, nation = last (split_on CHR '' '' n),
             league = join '' '' (tl (split_on CHR '' '' c)), age = Age row,
             profile = ''https://fbref.com'' @ href row, rec_data = data r\<rparr>"
  by (auto simp: build_record_def split: option.splits)

lemma process_row_parts:
  "process_row fetch row = Inr (k, pr) \<Longrightarrow>
     \<exists>idx nm r. drop (length (split_on CHR ''/'' (href row)) - 2) (split_on CHR ''/'' (href row)) = [idx, nm] \<and>
       get_scouting_report fetch idx nm = Inr r \<and> build_record row r = Inr pr \<and> k = ident r"
  by (auto simp: process_row_def Let_def split: list.splits sum.splits)

lemma collect_entry:
  "collect fetch df acc = Inr out \<Longrightarrow> (k, pr) \<in> set out \<Longrightarrow>
     (k, pr) \<in> set acc \<or> (\<exists>row \<in> set df. process_row fetch row = Inr (k, pr))"
proof (induction df arbitrary: acc)
  case Nil then show ?case by simp
next
  case (Cons row df)
  show ?case
  proof (cases "process_row fetch row")
    case (Inl e)
    with Cons.prems(1) have "collect fetch df acc = Inr out"
      by (cases e) auto
    from Cons.IH [OF this Cons.prems(2)] show ?thesis by auto
  next
    case (Inr kr)
    with Cons.prems(1) have "collect fetch df (AList.update (fst kr) (snd kr) acc) = Inr out"
      by simp
    from Cons.IH [OF this Cons.prems(2)] show ?thesis
      using update_set_subset [of "fst kr" "snd kr" acc] Inr by (cases kr) auto
  qed
qed

lemma collect_error: "collect fetch df acc = Inl e \<Longrightarrow> e \<noteq> ValueError"
  by (induction df arbitrary: acc) (auto split: sum.splits exn.splits)

lemma collect_aborts:
  "row \<in> set df \<Longrightarrow> process_row fetch row = Inl e \<Longrightarrow> e \<noteq> ValueError \<Longrightarrow>
     \<exists>e'. collect fetch df acc = Inl e'"
  by (induction df arbitrary: acc) (auto split: sum.splits exn.splits)

lemma collect_skips:
  "process_row fetch row = Inl ValueError \<Longrightarrow>
     collect fetch (row # df) acc = collect fetch df acc"
  by simp

section \<open>Splitting and joining\<close>

lemma split_on_nonempty: "split_on c s \<noteq> []"
  by (induction s) (auto split: list.splits)

lemma split_on_without: "c \<notin> set s \<Longrightarrow> split_on c s = [s]"
  by (induction s) auto

lemma split_on_with: "c \<in> set s \<Longrightarrow> \<exists>w v ws. split_on c s = w # v # ws"
proof (induction s)
  case Nil then show ?case by simp
next
  case (Cons x xs)
  show ?case
  proof (cases "x = c")
    case True
    with split_on_nonempty [of c xs] show ?thesis by (cases "split_on c xs") auto
  next
    case False
    with Cons.prems have "c \<in> set xs" by simp
    from Cons.IH [OF this] False show ?thesis by auto
  qed
qed

lemma join_cons: "join sep ((x # w) # ws) = x # join sep (w # ws)"
  by (cases ws) auto

lemma join_split_on: "join [c] (split_on c s) = s"
proof (induction s)
  case Nil then show ?case by simp
next
  case (Cons x xs)
  obtain w ws where sp: "split_on c xs = w # ws"
    using split_on_nonempty [of c xs] by (cases "split_on c xs") auto
  with Cons show ?case by (auto simp: join_cons)
qed

lemma after_last_cons:
  "rev (takeWhile (\<lambda>x. x \<noteq> c) (rev (x # xs))) =
     (if c \<in> set xs then rev (takeWhile (\<lambda>x. x \<noteq> c) (rev xs))
      else if x = c then xs else x # xs)"
proof (cases "c \<in> set xs")
  case True
  then have "takeWhile (\<lambda>x. x \<noteq> c) (rev xs @ [x]) = takeWhile (\<lambda>x. x \<noteq> c) (rev xs)"
    by (intro takeWhile_append1 [of c]) auto
  with True show ?thesis by simp
next
  case False
  then have "takeWhile (\<lambda>x. x \<noteq> c) (rev xs @ [x]) = rev xs @ takeWhile (\<lambda>x. x \<noteq> c) [x]"
    by (intro takeWhile_append2) auto
  with False show ?thesis by simp
qed

lemma last_split_on: "last (split_on c s) = rev (takeWhile (\<lambda>x. x \<noteq> c) (rev s))"
proof (induction s)
  case Nil then show ?case by simp
next
  case (Cons x xs)
  show ?case
  proof (cases "c \<in> set xs")
    case True
    from split_on_with [OF True] obtain w v ws where sp: "split_on c xs = w # v # ws" by blast
    with Cons True show ?thesis unfolding after_last_cons by auto
  next
    case False
    from split_on_without [OF False] show ?thesis unfolding after_last_cons using False by auto
  qed
qed

lemma tl_split_on: "join [c] (tl (split_on c s)) = tl (dropWhile (\<lambda>x. x \<noteq> c) s)"
proof (induction s)
  case Nil then show ?case by simp
next
  case (Cons x xs)
  obtain w ws where sp: "split_on c xs = w # ws"
    using split_on_nonempty [of c xs] by (cases "split_on c xs") auto
  show ?case
  proof (cases "x = c")
    case True
    then show ?thesis using join_split_on [of c xs] by simp
  next
    case False
    with Cons sp show ?thesis by simp
  qed
qed

lemma merge_loop_in_range_error:
  "length pos \<le> length dfs \<Longrightarrow> merge_loop dfs pos df acc = Inl e \<Longrightarrow> e = KeyError"
proof (induction df arbitrary: acc)
  case Nil then show ?case by simp
next
  case (Cons sf df)
  have rng: "\<forall>ip \<in> set (enumerate_list pos). fst ip < length dfs"
    using Cons.prems(1) by (auto simp: enumerate_mem)
  show ?case
  proof (cases "fill_percentiles dfs (fst sf) (enumerate_list pos) []")
    case (Inl e')
    with Cons.prems(2) have "e = e'" by simp
    with fill_in_range_error [OF rng Inl] show ?thesis by simp
  next
    case (Inr pm)
    with Cons.prems(2) Cons.IH [OF Cons.prems(1)] show ?thesis by simp
  qed
qed

lemma get_scouting_report_parts:
  "get_scouting_report fetch idx nm = Inr r \<Longrightarrow>
     \<exists>ts. percentile_tables (tables (fetch idx nm)) = Inr ts \<and>
       merge_tables (positions r) ts = Inr (data r) \<and>
       positions r = detect_positions (fetch idx nm) \<and> ident r = idx"
  unfolding get_scouting_report_def using report_parts [of idx "fetch idx nm" r] by auto

lemma detect_positions_distinct: "distinct (detect_positions doc)"
  by (simp add: detect_positions_def pos_list_def)

section \<open>Detection\<close>

lemma find_all_div_empty: "find_all_div doc i \<noteq> [] \<longleftrightarrow> i \<in> set (div_ids doc)"
  by (auto simp: find_all_div_def filter_empty_conv)

section \<open>The claims\<close>

text \<open>
  Claim C1, as the code has it. The copy of line 78 has no test for the key. With at
  least as many tables as positions: when a statistic of the first table is missing from
  the table of some position, the merge raises \<open>KeyError\<close>; when the merge returns,
  every table of a position has the statistic, and its percentile is what the mapping
  of the statistic holds under that position; and the merge does return when every
  table of a position has a percentile for every statistic of the first table. When the
  tables and positions are those of the page of a player of the run and a statistic is
  missing, \<open>get_scouting_report\<close> raises \<open>KeyError\<close>, the driver does not catch it, and the
  run ends with an exception and writes no file.
\<close>

theorem C1_copy_is_unconditional:
  assumes "length pos \<le> length (t # ts)"
  shows "((\<exists>stat \<in> fst ` set t. \<exists>i < length pos. stat \<notin> fst ` set ((t # ts) ! i))
            \<longrightarrow> merge_tables pos (t # ts) = Inl KeyError)
       \<and> (\<forall>d stat e. merge_tables pos (t # ts) = Inr d \<and> (stat, e) \<in> set d \<longrightarrow>
            (\<exists>pm. map_of e ''Percentile'' = Some (Mapping pm) \<and>
               (\<forall>i < length pos. stat \<in> fst ` set ((t # ts) ! i) \<and>
                  (\<exists>v. percentile_at (t # ts) i stat = Inr v \<and>
                     (distinct pos \<longrightarrow> map_of pm (pos ! i) = Some v)))))
       \<and> ((\<forall>stat \<in> fst ` set t. \<forall>i < length pos. \<exists>v. percentile_at (t # ts) i stat = Inr v)
            \<longrightarrow> (\<exists>d. merge_tables pos (t # ts) = Inr d))
       \<and> ((\<exists>stat \<in> fst ` set t. \<exists>i < length pos. stat \<notin> fst ` set ((t # ts) ! i))
            \<and> row \<in> set df
            \<and> drop (length (split_on CHR ''/'' (href row)) - 2) (split_on CHR ''/'' (href row))
                 = [idx, nm]
            \<and> percentile_tables (tables (fetch idx nm)) = Inr (t # ts)
            \<and> detect_positions (fetch idx nm) = pos
            \<longrightarrow> get_scouting_report fetch idx nm = Inl KeyError
                \<and> process_row fetch row = Inl KeyError
                \<and> (\<exists>e. main fetch df = Inl e))"
proof -
  have key_error: "merge_tables pos (t # ts) = Inl KeyError"
    if "\<exists>stat \<in> fst ` set t. \<exists>i < length pos. stat \<notin> fst ` set ((t # ts) ! i)"
  proof -
    from that obtain sf i where sf: "sf \<in> set t" and i: "i < length pos"
      and miss: "fst sf \<notin> fst ` set ((t # ts) ! i)" by auto
    from i assms have "i < length (t # ts)" by simp
    from percentile_at_missing [OF this miss]
    have "percentile_at (t # ts) i (fst sf) = Inl KeyError" .
    moreover from i have "(i, pos ! i) \<in> set (enumerate_list pos)" by (simp add: enumerate_mem)
    ultimately obtain e0 where
      "fill_percentiles (t # ts) (fst sf) (enumerate_list pos) [] = Inl e0"
      using fill_missing by blast
    from merge_loop_fails [OF sf this] obtain e where
      e: "merge_loop (t # ts) pos t [] = Inl e" by blast
    from merge_loop_in_range_error [OF assms e] e
    show ?thesis by (simp add: merge_tables_def)
  qed
  have copies: "\<exists>pm. map_of e ''Percentile'' = Some (Mapping pm) \<and>
               (\<forall>i < length pos. stat \<in> fst ` set ((t # ts) ! i) \<and>
                  (\<exists>v. percentile_at (t # ts) i stat = Inr v \<and>
                     (distinct pos \<longrightarrow> map_of pm (pos ! i) = Some v)))"
    if a: "merge_tables pos (t # ts) = Inr d \<and> (stat, e) \<in> set d" for d stat e
  proof -
    from merge_tables_entry [of pos "t # ts" d stat e] a obtain flds pm where
      pm: "fill_percentiles (t # ts) stat (enumerate_list pos) [] = Inr pm"
      and e: "e = merged_entry flds pm" by blast
    have "\<forall>i < length pos. stat \<in> fst ` set ((t # ts) ! i) \<and>
          (\<exists>v. percentile_at (t # ts) i stat = Inr v \<and>
             (distinct pos \<longrightarrow> map_of pm (pos ! i) = Some v))"
    proof (intro allI impI)
      fix i assume i: "i < length pos"
      then have mem: "(i, pos ! i) \<in> set (enumerate_list pos)" by (simp add: enumerate_mem)
      from fill_succeeds [OF pm mem] obtain v where v: "percentile_at (t # ts) i stat = Inr v"
        by blast
      then obtain flds' where "map_of ((t # ts) ! i) stat = Some flds'"
        by (auto simp: percentile_at_def split: if_splits option.splits)
      then have key: "stat \<in> fst ` set ((t # ts) ! i)"
        by (metis map_of_eq_None_iff option.distinct(1))
      have "distinct pos \<longrightarrow> map_of pm (pos ! i) = Some v"
        using fill_copies [OF pm _ mem v] by (simp add: enumerate_snd)
      with key v show "stat \<in> fst ` set ((t # ts) ! i) \<and>
          (\<exists>v. percentile_at (t # ts) i stat = Inr v \<and>
             (distinct pos \<longrightarrow> map_of pm (pos ! i) = Some v))" by blast
    qed
    with e show ?thesis using merged_entry_percentile by blast
  qed
  have returns: "\<exists>d. merge_tables pos (t # ts) = Inr d"
    if all: "\<forall>stat \<in> fst ` set t. \<forall>i < length pos. \<exists>v. percentile_at (t # ts) i stat = Inr v"
  proof -
    have "\<forall>sf \<in> set t. \<exists>pm. fill_percentiles (t # ts) (fst sf) (enumerate_list pos) [] = Inr pm"
    proof
      fix sf assume "sf \<in> set t"
      with all have "\<forall>ip \<in> set (enumerate_list pos).
          \<exists>v. percentile_at (t # ts) (fst ip) (fst sf) = Inr v"
        by (auto simp: enumerate_mem)
      from fill_total [OF this]
      show "\<exists>pm. fill_percentiles (t # ts) (fst sf) (enumerate_list pos) [] = Inr pm" .
    qed
    from merge_loop_total [OF this] show ?thesis by (simp add: merge_tables_def)
  qed
  have aborts: "get_scouting_report fetch idx nm = Inl KeyError
                \<and> process_row fetch row = Inl KeyError
                \<and> (\<exists>e. main fetch df = Inl e)"
    if a: "(\<exists>stat \<in> fst ` set t. \<exists>i < length pos. stat \<notin> fst ` set ((t # ts) ! i))
            \<and> row \<in> set df
            \<and> drop (length (split_on CHR ''/'' (href row)) - 2) (split_on CHR ''/'' (href row))
                 = [idx, nm]
            \<and> percentile_tables (tables (fetch idx nm)) = Inr (t # ts)
            \<and> detect_positions (fetch idx nm) = pos"
  proof -
    from a key_error have m: "merge_tables pos (t # ts) = Inl KeyError" by blast
    from a have "tables (fetch idx nm) \<noteq> []" by auto
    with a m have g: "get_scouting_report fetch idx nm = Inl KeyError"
      by (simp add: get_scouting_report_def report_of_document_def read_html_def)
    with a have p: "process_row fetch row = Inl KeyError" by (simp add: process_row_def)
    from a have "row \<in> set df" by blast
    from collect_aborts [OF this p] have "\<exists>e. main fetch df = Inl e" by (simp add: main_def)
    with g p show ?thesis by blast
  qed
  from key_error copies returns aborts show ?thesis by blast
qed

theorem C1_copy_is_unconditional_witness:
  "length [''AM'', ''FW''] \<le> length [table_B_assists, table_A]
   \<and> ''Key Passes'' \<in> fst ` set table_B_assists
   \<and> ''Key Passes'' \<notin> fst ` set ([table_B_assists, table_A] ! 1)
   \<and> merge_tables [''AM'', ''FW''] [table_B_assists, table_A] = Inl KeyError
   \<and> (\<exists>d. merge_tables [''AM'', ''FW''] [table_A, table_B_assists] = Inr d)
   \<and> percentile_tables (tables (site ''0a1b2c3d'' ''Bo-Example'')) =
        Inr [[(''Goals'', [(''Per 90'', Str ''0.50''), (''Percentile'', Str ''80'')]),
              (''Assists'', [(''Per 90'', Str ''0.30''), (''Percentile'', Str ''60'')])],
             [(''Goals'', [(''Per 90'', Str ''0.50''), (''Percentile'', Str ''70'')])]]
   \<and> detect_positions (site ''0a1b2c3d'' ''Bo-Example'') = [''AM'', ''FW'']
   \<and> process_row site (index_row ''0a1b2c3d'' ''Bo-Example'' ''eng ENG'') = Inl KeyError
   \<and> (\<exists>e. main site [index_row ''e46012d4'' ''Ann-Example'' ''eng ENG'',
                        index_row ''0a1b2c3d'' ''Bo-Example'' ''eng ENG''] = Inl e)"
proof -
  have len2: "length [''AM'', ''FW''] \<le> length [table_A, table_B_assists]" by simp
  have "\<forall>stat \<in> fst ` set table_A. \<forall>i < length [''AM'', ''FW''].
          \<exists>v. percentile_at [table_A, table_B_assists] i stat = Inr v"
    by (simp add: table_A_def table_B_assists_def table_B_def percentile_at_def less_Suc_eq)
  with C1_copy_is_unconditional [OF len2]
  have ok: "\<exists>d. merge_tables [''AM'', ''FW''] [table_A, table_B_assists] = Inr d" by blast
  have len: "length [''AM'', ''FW''] \<le> length [table_B_assists, table_A]" by simp
  have k1: "''Key Passes'' \<in> fst ` set table_B_assists"
    by (simp add: table_B_assists_def table_B_def)
  have k2: "''Key Passes'' \<notin> fst ` set ([table_B_assists, table_A] ! 1)"
    by (simp add: table_A_def)
  have "\<exists>stat \<in> fst ` set table_B_assists. \<exists>i < length [''AM'', ''FW''].
          stat \<notin> fst ` set ([table_B_assists, table_A] ! i)"
    using k1 k2 by (intro bexI [of _ "''Key Passes''"] exI [of _ 1]) simp_all
  with C1_copy_is_unconditional [OF len]
  have err: "merge_tables [''AM'', ''FW''] [table_B_assists, table_A] = Inl KeyError" by blast
  let ?t = "[(''Goals'', [(''Per 90'', Str ''0.50''), (''Percentile'', Str ''80'')]),
             (''Assists'', [(''Per 90'', Str ''0.30''), (''Percentile'', Str ''60'')])]"
  let ?u = "[(''Goals'', [(''Per 90'', Str ''0.50''), (''Percentile'', Str ''70'')])]"
  let ?row = "index_row ''0a1b2c3d'' ''Bo-Example'' ''eng ENG''"
  let ?df = "[index_row ''e46012d4'' ''Ann-Example'' ''eng ENG'', ?row]"
  have pt: "percentile_tables (tables (site ''0a1b2c3d'' ''Bo-Example'')) = Inr (?t # [?u])"
    by code_simp
  have dp: "detect_positions (site ''0a1b2c3d'' ''Bo-Example'') = [''AM'', ''FW'']"
    by code_simp
  have hr: "drop (length (split_on CHR ''/'' (href ?row)) - 2) (split_on CHR ''/'' (href ?row))
              = [''0a1b2c3d'', ''Bo-Example'']" by code_simp
  have len3: "length [''AM'', ''FW''] \<le> length (?t # [?u])" by simp
  have miss: "\<exists>stat \<in> fst ` set ?t. \<exists>i < length [''AM'', ''FW''].
          stat \<notin> fst ` set ((?t # [?u]) ! i)"
    by (intro bexI [of _ "''Assists''"] exI [of _ 1]) simp_all
  have mem: "?row \<in> set ?df" by simp
  from C1_copy_is_unconditional [where pos = "[''AM'', ''FW'']" and t = ?t and ts = "[?u]"
      and row = ?row and df = ?df and idx = "''0a1b2c3d''" and nm = "''Bo-Example''"
      and fetch = site, OF len3] miss mem hr pt dp
  have run: "process_row site ?row = Inl KeyError \<and> (\<exists>e. main site ?df = Inl e)" by blast
  from len k1 k2 err ok pt dp run show ?thesis by simp
qed

text \<open>
  A page with sections AM and FW whose second table has no row for Assists: the report
  is not built, and \<open>KeyError\<close> ends the run.
\<close>

theorem C1_counterexample:
  "detect_positions page_sparse = [''AM'', ''FW'']
   \<and> percentile_tables (tables page_sparse) =
       Inr [[(''Goals'', [(''Per 90'', Str ''0.50''), (''Percentile'', Str ''80'')]),
             (''Assists'', [(''Per 90'', Str ''0.30''), (''Percentile'', Str ''60'')])],
            [(''Goals'', [(''Per 90'', Str ''0.50''), (''Percentile'', Str ''70'')])]]
   \<and> get_scouting_report site ''0a1b2c3d'' ''Bo-Example'' = Inl KeyError
   \<and> main site [index_row ''0a1b2c3d'' ''Bo-Example'' ''eng ENG''] = Inl KeyError"
  by code_simp

text \<open>
  Claim C2 at a page whose only table has a plain header: \<open>pd.read_html\<close> finds a table,
  the loop of lines 63 to 71 keeps none, and \<open>percentile_dfs[0]\<close> raises \<open>IndexError\<close>,
  which line 120 does not catch. The run ends before the second player is reached. A
  page without any table is passed over: there \<open>pd.read_html\<close> raises \<open>ValueError\<close>.
\<close>

theorem C2_page_without_percentile_table:
  "read_html page_bio = Inr [bio_frame]
   \<and> percentile_tables [bio_frame] = Inr []
   \<and> get_scouting_report site ''11111111'' ''Bo-Example'' = Inl IndexError
   \<and> main site [index_row ''11111111'' ''Bo-Example'' ''eng ENG'',
                 index_row ''e46012d4'' ''Ann-Example'' ''eng ENG''] = Inl IndexError
   \<and> get_scouting_report site ''99999999'' ''Ed-Example'' = Inl ValueError
   \<and> main site [index_row ''99999999'' ''Ed-Example'' ''eng ENG'',
                 index_row ''e46012d4'' ''Ann-Example'' ''eng ENG''] =
        Inr [(''e46012d4'', record_full ''Ann-Example'')]"
  by code_simp

text \<open>
  Claim C3: the statistics of a report are exactly the statistics of the first table
  that the extraction kept; a statistic of a later table alone is not among them.
\<close>

theorem C3_schema_is_first_table:
  assumes "get_scouting_report fetch idx nm = Inr r"
  shows "\<exists>t ts. percentile_tables (tables (fetch idx nm)) = Inr (t # ts)
           \<and> fst ` set (data r) = fst ` set t
           \<and> (\<forall>stat. stat \<notin> fst ` set t \<longrightarrow> stat \<notin> fst ` set (data r))"
proof -
  from get_scouting_report_parts [OF assms] obtain ts0 where
    ts0: "percentile_tables (tables (fetch idx nm)) = Inr ts0"
    and m: "merge_tables (positions r) ts0 = Inr (data r)" by blast
  from merge_tables_nonempty [OF m] obtain t ts where eq: "ts0 = t # ts" by (cases ts0) auto
  from m eq have "fst ` set (data r) = fst ` set t" using merge_tables_keys by blast
  with ts0 eq show ?thesis by blast
qed

theorem C3_schema_is_first_table_witness:
  "get_scouting_report site ''e46012d4'' ''Ann-Example'' = Inr report_full
   \<and> (\<exists>t ts. percentile_tables (tables page_full) = Inr (t # ts)
         \<and> fst ` set (data report_full) = fst ` set t
         \<and> ''Key Passes'' \<notin> fst ` set (data report_full))"
proof -
  have r: "get_scouting_report site ''e46012d4'' ''Ann-Example'' = Inr report_full"
    by code_simp
  have s: "site ''e46012d4'' ''Ann-Example'' = page_full" by (simp add: site_def)
  have k: "''Key Passes'' \<notin> fst ` set (data report_full)" by (simp add: report_full_def)
  from C3_schema_is_first_table [OF r] r s k show ?thesis by auto
qed

text \<open>
  Claim C4, as the code has it. Line 68 keeps the rows whose percentile is a string of
  digits and line 78 copies that string: in a report every statistic has, under every
  detected position and under no other key, a non-empty string of digits. It is not
  turned into a number and nothing bounds it by 100. The string under the position of
  index \<open>i\<close> is the \<open>Percentile\<close> field of the statistic in the table of index \<open>i\<close>, and
  that is the cell of the column \<open>Percentile\<close> in a row without NaN of the frame of index
  \<open>i\<close> among the frames with a two-level header, a row whose label is the statistic.
\<close>

theorem C4_percentiles_are_digit_strings:
  assumes "get_scouting_report fetch idx nm = Inr r" and "(stat, e) \<in> set (data r)"
  shows "\<exists>pm ts. percentile_tables (tables (fetch idx nm)) = Inr ts
           \<and> map_of e ''Percentile'' = Some (Mapping pm)
           \<and> fst ` set pm = set (positions r)
           \<and> (\<forall>p \<in> set (positions r). \<exists>s. map_of pm p = Some (Str s) \<and> isdigit s)
           \<and> length (positions r) \<le> length ts
           \<and> length (percentile_frames (tables (fetch idx nm))) = length ts
           \<and> (\<forall>i < length (positions r). \<exists>flds s hdr row cells.
                  map_of pm (positions r ! i) = Some (Str s) \<and> isdigit s
                  \<and> map_of (ts ! i) stat = Some flds
                  \<and> map_of flds ''Percentile'' = Some (Str s)
                  \<and> columns (percentile_frames (tables (fetch idx nm)) ! i) = MultiIndex hdr
                  \<and> row \<in> set (rows (percentile_frames (tables (fetch idx nm)) ! i))
                  \<and> those (row_cells (length hdr) row) = Some cells
                  \<and> label_key (row_label (map snd hdr) cells) = stat
                  \<and> map_of (row_fields (map snd hdr) cells) ''Percentile'' = Some s)"
proof -
  let ?frs = "percentile_frames (tables (fetch idx nm))"
  let ?pos = "positions r"
  from get_scouting_report_parts [OF assms(1)] obtain ts where
    ts: "percentile_tables (tables (fetch idx nm)) = Inr ts"
    and m: "merge_tables ?pos ts = Inr (data r)"
    and pos: "?pos = detect_positions (fetch idx nm)" by blast
  from merge_tables_entry [OF m assms(2)] obtain flds0 pm where
    pm: "fill_percentiles ts stat (enumerate_list ?pos) [] = Inr pm"
    and e: "e = merged_entry flds0 pm" by blast
  from fill_keys [OF pm] have keys: "fst ` set pm = set ?pos"
    by (simp add: enumerate_set)
  have ex: "\<forall>t \<in> set ts. \<exists>hdr body. extract_table hdr body = Inr t"
    using percentile_tables_extracted [OF ts] by blast
  have dig: "\<forall>p \<in> set ?pos. \<exists>s. map_of pm p = Some (Str s) \<and> isdigit s"
  proof
    fix p assume "p \<in> set ?pos"
    with keys have "p \<in> fst ` set pm" by simp
    then obtain v where v: "map_of pm p = Some v"
      by (metis map_of_eq_None_iff not_Some_eq)
    from fill_values [OF pm map_of_SomeD [OF v]] obtain i where
      "percentile_at ts i stat = Inr v" by auto
    from percentile_at_extracted [OF ex this] v
    show "\<exists>s. map_of pm p = Some (Str s) \<and> isdigit s" by auto
  qed
  from percentile_tables_frames [OF ts] have all2:
    "list_all2 (\<lambda>df t. \<exists>hdr. columns df = MultiIndex hdr \<and> extract_table hdr (rows df) = Inr t)
       ?frs ts" .
  then have len: "length ?frs = length ts" by (rule list_all2_lengthD)
  have dist: "distinct (map snd (enumerate_list ?pos))"
    using pos detect_positions_distinct by (simp add: enumerate_snd)
  have at: "\<exists>v. percentile_at ts i stat = Inr v \<and> map_of pm (?pos ! i) = Some v \<and> i < length ts"
    if i: "i < length ?pos" for i
  proof -
    from i have mem: "(i, ?pos ! i) \<in> set (enumerate_list ?pos)" by (simp add: enumerate_mem)
    from fill_succeeds [OF pm mem] obtain v where v: "percentile_at ts i stat = Inr v" by blast
    then have "i < length ts" by (auto simp: percentile_at_def split: if_splits)
    with fill_copies [OF pm dist mem v] v show ?thesis by blast
  qed
  have le: "length ?pos \<le> length ts"
  proof (cases "?pos = []")
    case True then show ?thesis by simp
  next
    case False
    then have "length ?pos - 1 < length ?pos" by simp
    from at [OF this] show ?thesis by auto
  qed
  have cells: "\<forall>i < length ?pos. \<exists>flds s hdr row cells.
                  map_of pm (?pos ! i) = Some (Str s) \<and> isdigit s
                  \<and> map_of (ts ! i) stat = Some flds
                  \<and> map_of flds ''Percentile'' = Some (Str s)
                  \<and> columns (?frs ! i) = MultiIndex hdr
                  \<and> row \<in> set (rows (?frs ! i))
                  \<and> those (row_cells (length hdr) row) = Some cells
                  \<and> label_key (row_label (map snd hdr) cells) = stat
                  \<and> map_of (row_fields (map snd hdr) cells) ''Percentile'' = Some s"
  proof (intro allI impI)
    fix i assume i: "i < length ?pos"
    from at [OF i] obtain v where v: "percentile_at ts i stat = Inr v"
      and c: "map_of pm (?pos ! i) = Some v" and its: "i < length ts" by blast
    from v its obtain flds where fl: "map_of (ts ! i) stat = Some flds"
      and pc: "map_of flds ''Percentile'' = Some v"
      by (auto simp: percentile_at_def split: if_splits option.splits)
    from percentile_at_extracted [OF ex v] obtain s where s: "v = Str s" "isdigit s" by blast
    from list_all2_nthD2 [OF all2 its] obtain hdr where
      hdr: "columns (?frs ! i) = MultiIndex hdr"
      and ext: "extract_table hdr (rows (?frs ! i)) = Inr (ts ! i)" by blast
    from extract_table_source [OF ext map_of_SomeD [OF fl]] obtain row cells where
      row: "row \<in> set (rows (?frs ! i))"
      and th: "those (row_cells (length hdr) row) = Some cells"
      and lab: "label_key (row_label (map snd hdr) cells) = stat"
      and fs: "flds = map (\<lambda>f. (fst f, Str (snd f))) (row_fields (map snd hdr) cells)" by blast
    from pc fs s(1) have "map_of (row_fields (map snd hdr) cells) ''Percentile'' = Some s"
      by (auto simp: map_of_str_fields)
    with c s fl pc hdr row th lab
    show "\<exists>flds s hdr row cells.
                  map_of pm (?pos ! i) = Some (Str s) \<and> isdigit s
                  \<and> map_of (ts ! i) stat = Some flds
                  \<and> map_of flds ''Percentile'' = Some (Str s)
                  \<and> columns (?frs ! i) = MultiIndex hdr
                  \<and> row \<in> set (rows (?frs ! i))
                  \<and> those (row_cells (length hdr) row) = Some cells
                  \<and> label_key (row_label (map snd hdr) cells) = stat
                  \<and> map_of (row_fields (map snd hdr) cells) ''Percentile'' = Some s"
      by blast
  qed
  from ts e merged_entry_percentile [of flds0 pm] keys dig le len cells
  show ?thesis by blast
qed

theorem C4_percentiles_are_digit_strings_witness:
  "get_scouting_report site ''e46012d4'' ''Ann-Example'' = Inr report_full
   \<and> (''Goals'', [(''Per 90'', Scalar (Str ''0.50'')),
                   (''Percentile'', Mapping [(''AM'', Str ''80''), (''FW'', Str ''70'')])])
       \<in> set (data report_full)
   \<and> positions report_full = [''AM'', ''FW'']
   \<and> (\<exists>pm ts. percentile_tables (tables page_full) = Inr ts
          \<and> map_of [(''Per 90'', Scalar (Str ''0.50'')),
                      (''Percentile'', Mapping [(''AM'', Str ''80''), (''FW'', Str ''70'')])]
                ''Percentile'' = Some (Mapping pm)
          \<and> fst ` set pm = set (positions report_full)
          \<and> (\<forall>i < length (positions report_full). \<exists>flds s hdr row cells.
                 map_of pm (positions report_full ! i) = Some (Str s) \<and> isdigit s
                 \<and> map_of (ts ! i) ''Goals'' = Some flds
                 \<and> map_of flds ''Percentile'' = Some (Str s)
                 \<and> columns (percentile_frames (tables page_full) ! i) = MultiIndex hdr
                 \<and> row \<in> set (rows (percentile_frames (tables page_full) ! i))
                 \<and> those (row_cells (length hdr) row) = Some cells
                 \<and> label_key (row_label (map snd hdr) cells) = ''Goals''
                 \<and> map_of (row_fields (map snd hdr) cells) ''Percentile'' = Some s))"
proof -
  have r: "get_scouting_report site ''e46012d4'' ''Ann-Example'' = Inr report_full"
    by code_simp
  have g: "(''Goals'', [(''Per 90'', Scalar (Str ''0.50'')),
                   (''Percentile'', Mapping [(''AM'', Str ''80''), (''FW'', Str ''70'')])])
       \<in> set (data report_full)" by (simp add: report_full_def)
  have s: "site ''e46012d4'' ''Ann-Example'' = page_full" by (simp add: site_def)
  have p: "positions report_full = [''AM'', ''FW'']" by (simp add: report_full_def)
  note c = C4_percentiles_are_digit_strings [OF r g, unfolded s]
  from c r g p show ?thesis by blast
qed

text \<open>A percentile cell \<open>250\<close> reaches the report as it is.\<close>

theorem C4_counterexample:
  "get_scouting_report site ''22222222'' ''Bo-Example'' =
     Inr \<lparr>data = [(''Goals'', [(''Per 90'', Scalar (Str ''0.50'')),
                                (''Percentile'', Mapping [(''FW'', Str ''250'')])])],
          positions = [''FW''], ident = ''22222222''\<rparr>
   \<and> \<not> integer_0_100 (Str ''250'')"
  by code_simp

text \<open>
  Claim C5, as the code has it. On the two tables of the example the merge raises
  \<open>KeyError\<close> when it looks up Assists in the second table. Once the second table has a
  row for Assists as well, the merge returns both statistics of the first table with the
  percentiles of both positions, as the strings of the tables, and without Key Passes.
\<close>

theorem C5_merge_of_the_example:
  "merge_tables [''FW'', ''AM''] [table_A, table_B] = Inl KeyError
   \<and> merge_tables [''FW'', ''AM''] [table_A, table_B_assists] =
       Inr [(''Goals'', [(''Per 90'', Scalar (Num (1 / 2))),
                         (''Percentile'', Mapping [(''FW'', Str ''80''), (''AM'', Str ''70'')])]),
            (''Assists'', [(''Per 90'', Scalar (Num (3 / 10))),
                           (''Percentile'', Mapping [(''FW'', Str ''60''), (''AM'', Str ''50'')])])]"
  by code_simp

text \<open>The merge of the example does not return the expected data.\<close>

theorem C5_counterexample:
  "merge_tables [''FW'', ''AM''] [table_A, table_B] \<noteq> Inr expected_example"
proof -
  have "merge_tables [''FW'', ''AM''] [table_A, table_B] = Inl KeyError" by code_simp
  then show ?thesis by simp
qed

text \<open>
  Claim C6: \<open>Passes Blocked\<close> is not a statistic of any report that \<open>get_scouting_report\<close>
  returns, nor of any record of the dict that a run writes.
\<close>

theorem C6_passes_blocked_excluded:
  "(get_scouting_report fetch idx nm = Inr r \<longrightarrow> ''Passes Blocked'' \<notin> fst ` set (data r))
   \<and> (main fetch df = Inr reports \<longrightarrow>
        (\<forall>kr \<in> set reports. ''Passes Blocked'' \<notin> fst ` set (rec_data (snd kr))))"
proof -
  have rep: "''Passes Blocked'' \<notin> fst ` set (data r')"
    if a: "get_scouting_report fetch i n = Inr r'" for i n r'
  proof -
    from get_scouting_report_parts [OF a] obtain ts0 where
      ts0: "percentile_tables (tables (fetch i n)) = Inr ts0"
      and m: "merge_tables (positions r') ts0 = Inr (data r')" by blast
    from merge_tables_nonempty [OF m] obtain t ts where eq: "ts0 = t # ts" by (cases ts0) auto
    from m eq have keys: "fst ` set (data r') = fst ` set t" using merge_tables_keys by blast
    from percentile_tables_extracted [OF ts0, of t] eq obtain hdr body where
      "extract_table hdr body = Inr t" by auto
    from extract_table_rows [OF this] have "''Passes Blocked'' \<notin> fst ` set t" by force
    with keys show ?thesis by simp
  qed
  have "''Passes Blocked'' \<notin> fst ` set (rec_data (snd kr))"
    if a: "main fetch df = Inr reports" and b: "kr \<in> set reports" for kr
  proof -
    obtain k pr where kr: "kr = (k, pr)" by (cases kr)
    from a have "collect fetch df [] = Inr reports" by (simp add: main_def)
    from collect_entry [OF this, of k pr] b kr obtain row where
      "process_row fetch row = Inr (k, pr)" by auto
    from process_row_parts [OF this] obtain i n r' where
      g: "get_scouting_report fetch i n = Inr r'" and br: "build_record row r' = Inr pr" by blast
    from build_record_parts [OF br] have "rec_data pr = data r'" by auto
    with rep [OF g] kr show ?thesis by simp
  qed
  with rep show ?thesis by blast
qed

theorem C6_passes_blocked_excluded_witness:
  "get_scouting_report site ''e46012d4'' ''Ann-Example'' = Inr report_full
   \<and> stat_row ''Passes Blocked'' ''1.20'' ''55'' \<in> set (rows (tables page_full ! 1))
   \<and> ''Passes Blocked'' \<notin> fst ` set (data report_full)
   \<and> main site [index_row ''e46012d4'' ''Ann-Example'' ''eng ENG''] =
        Inr [(''e46012d4'', record_full ''Ann-Example'')]
   \<and> ''Passes Blocked'' \<notin> fst ` set (rec_data (record_full ''Ann-Example''))"
proof -
  have r: "get_scouting_report site ''e46012d4'' ''Ann-Example'' = Inr report_full"
    by code_simp
  have m: "main site [index_row ''e46012d4'' ''Ann-Example'' ''eng ENG''] =
        Inr [(''e46012d4'', record_full ''Ann-Example'')]" by code_simp
  have p: "stat_row ''Passes Blocked'' ''1.20'' ''55'' \<in> set (rows (tables page_full ! 1))"
    by (simp add: page_full_def)
  from C6_passes_blocked_excluded [of site "''e46012d4''" "''Ann-Example''" report_full
      "[index_row ''e46012d4'' ''Ann-Example'' ''eng ENG'']" "[(''e46012d4'', record_full ''Ann-Example'')]"]
    r m p show ?thesis by simp
qed

text \<open>
  Claim C7: the detected positions are a subsequence of the fixed list, in its order; a
  position is among them exactly when the page has a \<open>div\<close> with the id of its section;
  and the list is empty when the page has none of these. The detection is a total
  function: nothing is raised.
\<close>

theorem C7_detect_positions:
  "subseq (detect_positions doc) pos_list
   \<and> (\<forall>p. p \<in> set (detect_positions doc) \<longleftrightarrow>
          p \<in> set pos_list \<and> ''div_scout_full_'' @ p \<in> set (div_ids doc))
   \<and> ((\<forall>p \<in> set pos_list. ''div_scout_full_'' @ p \<notin> set (div_ids doc))
        \<longrightarrow> detect_positions doc = [])"
proof (intro conjI allI impI)
  show "subseq (detect_positions doc) pos_list"
    unfolding detect_positions_def by (rule subseq_filter_left)
next
  fix p
  show "p \<in> set (detect_positions doc) \<longleftrightarrow>
          p \<in> set pos_list \<and> ''div_scout_full_'' @ p \<in> set (div_ids doc)"
    unfolding detect_positions_def set_filter find_all_div_empty by blast
next
  assume "\<forall>p \<in> set pos_list. ''div_scout_full_'' @ p \<notin> set (div_ids doc)"
  then show "detect_positions doc = []"
    unfolding detect_positions_def filter_empty_conv find_all_div_empty by blast
qed

theorem C7_detect_positions_witness:
  "div_ids page_full = [''content'', ''div_scout_full_FW'', ''div_scout_full_AM'']
   \<and> detect_positions page_full = [''AM'', ''FW'']
   \<and> subseq [''AM'', ''FW''] pos_list
   \<and> ''GK'' \<notin> set (detect_positions page_full)
   \<and> detect_positions page_bare = []"
proof -
  have d: "detect_positions page_full = [''AM'', ''FW'']" by code_simp
  have i: "div_ids page_full = [''content'', ''div_scout_full_FW'', ''div_scout_full_AM'']"
    by (simp add: page_full_def)
  have b: "\<forall>p \<in> set pos_list. ''div_scout_full_'' @ p \<notin> set (div_ids page_bare)"
    by (simp add: pos_list_def page_bare_def)
  from C7_detect_positions [of page_full] C7_detect_positions [of page_bare] d i b
  show ?thesis by simp
qed

text \<open>
  Claim C8, as the code has it. When the page of a player has more detected positions
  than percentile tables, and the first table has at least one statistic, the player's
  processing raises \<open>IndexError\<close> or \<open>KeyError\<close>; neither is caught, so that the run ends
  with an exception and writes no file.
\<close>

theorem C8_alignment_fault:
  assumes "row \<in> set df"
    and "drop (length (split_on CHR ''/'' (href row)) - 2) (split_on CHR ''/'' (href row))
           = [idx, nm]"
    and "percentile_tables (tables (fetch idx nm)) = Inr (t # ts)"
    and "t \<noteq> []"
    and "length (t # ts) < length (detect_positions (fetch idx nm))"
  shows "(process_row fetch row = Inl IndexError \<or> process_row fetch row = Inl KeyError)
         \<and> (\<exists>e. main fetch df = Inl e)"
proof -
  let ?doc = "fetch idx nm"
  let ?pos = "detect_positions ?doc"
  from assms(3) have nonempty: "tables ?doc \<noteq> []" by auto
  from assms(4) obtain sf rest where t: "t = sf # rest" by (cases t) auto
  have "(length (t # ts), ?pos ! length (t # ts)) \<in> set (enumerate_list ?pos)"
    using assms(5) by (simp add: enumerate_mem)
  from fill_out_of_range [OF this, of "t # ts" "fst sf" "[]"] obtain e where
    e: "fill_percentiles (t # ts) (fst sf) (enumerate_list ?pos) [] = Inl e" by auto
  from fill_error [OF e] have kind: "e = IndexError \<or> e = KeyError" .
  from e t have "merge_tables ?pos (t # ts) = Inl e" by (simp add: merge_tables_def)
  with nonempty assms(3) have "get_scouting_report fetch idx nm = Inl e"
    by (simp add: get_scouting_report_def report_of_document_def read_html_def)
  with assms(2) have p: "process_row fetch row = Inl e" by (simp add: process_row_def)
  from kind have "e \<noteq> ValueError" by auto
  from collect_aborts [OF assms(1) p this] have "\<exists>e'. main fetch df = Inl e'"
    by (simp add: main_def)
  with p kind show ?thesis by auto
qed

theorem C8_alignment_fault_witness:
  "detect_positions page_one_table = [''GK'', ''CB'']
   \<and> percentile_tables (tables page_one_table) =
        Inr [[(''Goals'', [(''Per 90'', Str ''0.50''), (''Percentile'', Str ''80'')])]]
   \<and> process_row site (index_row ''44444444'' ''Cy-Example'' ''eng ENG'') = Inl IndexError
   \<and> (\<exists>e. main site [index_row ''e46012d4'' ''Ann-Example'' ''eng ENG'',
                        index_row ''44444444'' ''Cy-Example'' ''eng ENG''] = Inl e)"
proof -
  let ?row = "index_row ''44444444'' ''Cy-Example'' ''eng ENG''"
  let ?df = "[index_row ''e46012d4'' ''Ann-Example'' ''eng ENG'', ?row]"
  have s: "site ''44444444'' ''Cy-Example'' = page_one_table" by code_simp
  have a1: "?row \<in> set ?df" by simp
  have a2: "drop (length (split_on CHR ''/'' (href ?row)) - 2) (split_on CHR ''/'' (href ?row))
           = [''44444444'', ''Cy-Example'']" by code_simp
  have t: "percentile_tables (tables page_one_table) =
        Inr [[(''Goals'', [(''Per 90'', Str ''0.50''), (''Percentile'', Str ''80'')])]]"
    by code_simp
  have d: "detect_positions page_one_table = [''GK'', ''CB'']" by code_simp
  have a3: "percentile_tables (tables (site ''44444444'' ''Cy-Example'')) =
        Inr ([(''Goals'', [(''Per 90'', Str ''0.50''), (''Percentile'', Str ''80'')])] # [])"
    using s t by simp
  have a4: "[(''Goals'', [(''Per 90'', Str ''0.50''), (''Percentile'', Str ''80'')])] \<noteq> []"
    by simp
  have a5: "length ([(''Goals'', [(''Per 90'', Str ''0.50''), (''Percentile'', Str ''80'')])] # [])
        < length (detect_positions (site ''44444444'' ''Cy-Example''))"
    using s d by simp
  have p: "process_row site ?row = Inl IndexError" by code_simp
  from C8_alignment_fault [where fetch = site and row = ?row and df = ?df
      and idx = "''44444444''" and nm = "''Cy-Example''" and ts = "[]"
      and t = "[(''Goals'', [(''Per 90'', Str ''0.50''), (''Percentile'', Str ''80'')])]",
      OF a1 a2 a3 a4 a5] t d p
  show ?thesis by blast
qed

text \<open>
  Two detected positions and one table without a ranked row: the loop of line 74 has
  nothing to run over, and the player is recorded with empty data.
\<close>

theorem C8_counterexample:
  "detect_positions page_unranked = [''GK'', ''CB'']
   \<and> percentile_tables (tables page_unranked) = Inr [[]]
   \<and> main site [index_row ''33333333'' ''Di-Example'' ''eng ENG''] =
        Inr [(''33333333'',
              \<lparr>name = Some ''Di-Example'', rec_positions = [''GK'', ''CB''],
               mins = Some ''1234'', team = Some ''Arsenal'', nation = ''ENG'',
               league = ''Premier League'', age = Some ''24'',
               profile = ''https://fbref.com/en/players/33333333/Di-Example'',
               rec_data = []\<rparr>)]"
  by code_simp

text \<open>
  Claim C9, as the code has it. The separator of lines 114 and 115 is the space
  character: the nation is the text after the last space of the cell, the league the
  text after the first space of the cell. Name, minutes, team and age are the cells of
  the row, the profile is the link of the row behind the address of the site, and the
  key of the record is the last piece but one of the link.
\<close>

theorem C9_record_fields:
  assumes "process_row fetch row = Inr (k, pr)"
  shows "\<exists>n c. Nation row = Some n \<and> Comp row = Some c
           \<and> nation pr = last (split_on CHR '' '' n)
           \<and> nation pr = rev (takeWhile (\<lambda>x. x \<noteq> CHR '' '') (rev n))
           \<and> league pr = join '' '' (tl (split_on CHR '' '' c))
           \<and> league pr = tl (dropWhile (\<lambda>x. x \<noteq> CHR '' '') c)
           \<and> name pr = Player row \<and> mins pr = Min' row \<and> team pr = Squad row
           \<and> age pr = Age row
           \<and> profile pr = ''https://fbref.com'' @ href row
           \<and> (\<exists>nm. drop (length (split_on CHR ''/'' (href row)) - 2)
                       (split_on CHR ''/'' (href row)) = [k, nm])"
proof -
  from process_row_parts [OF assms] obtain idx nm r where
    parts: "drop (length (split_on CHR ''/'' (href row)) - 2) (split_on CHR ''/'' (href row))
              = [idx, nm]"
    and g: "get_scouting_report fetch idx nm = Inr r"
    and b: "build_record row r = Inr pr" and k: "k = ident r" by blast
  from get_scouting_report_parts [OF g] k have "k = idx" by auto
  with parts have href: "\<exists>nm. drop (length (split_on CHR ''/'' (href row)) - 2)
                       (split_on CHR ''/'' (href row)) = [k, nm]" by blast
  from build_record_parts [OF b] obtain n c where
    n: "Nation row = Some n" and c: "Comp row = Some c"
    and pr: "pr = \<lparr>name = Player row, rec_positions = positions r, mins = Min' row,
             team = Squad row, nation = last (split_on CHR '' '' n),
             league = join '' '' (tl (split_on CHR '' '' c)), age = Age row,
             profile = ''https://fbref.com'' @ href row, rec_data = data r\<rparr>" by blast
  have "nation pr = rev (takeWhile (\<lambda>x. x \<noteq> CHR '' '') (rev n))"
    using pr last_split_on [of "CHR '' ''" n] by simp
  moreover have "league pr = tl (dropWhile (\<lambda>x. x \<noteq> CHR '' '') c)"
    using pr tl_split_on [of "CHR '' ''" c] by simp
  ultimately show ?thesis using n c pr href by simp
qed

theorem C9_record_fields_witness:
  "process_row site (index_row ''e46012d4'' ''Ann-Example'' ''eng ENG'') =
     Inr (''e46012d4'', record_full ''Ann-Example'')
   \<and> nation (record_full ''Ann-Example'') = rev (takeWhile (\<lambda>x. x \<noteq> CHR '' '') (rev ''eng ENG''))
   \<and> league (record_full ''Ann-Example'') = tl (dropWhile (\<lambda>x. x \<noteq> CHR '' '') ''eng Premier League'')
   \<and> profile (record_full ''Ann-Example'') =
        ''https://fbref.com'' @ href (index_row ''e46012d4'' ''Ann-Example'' ''eng ENG'')"
proof -
  have p: "process_row site (index_row ''e46012d4'' ''Ann-Example'' ''eng ENG'') =
     Inr (''e46012d4'', record_full ''Ann-Example'')" by code_simp
  from C9_record_fields [OF p] p show ?thesis by (simp add: index_row_def)
qed

text \<open>
  A nation cell with a tab between its two tokens: its last whitespace-separated token
  is \<open>ENG\<close>, the nation of the record is the whole cell.
\<close>

theorem C9_counterexample:
  "process_row site (index_row ''e46012d4'' ''Ann-Example'' (''eng'' @ [CHR 0x09] @ ''ENG'')) =
     Inr (''e46012d4'', (record_full ''Ann-Example'')\<lparr>nation := ''eng'' @ [CHR 0x09] @ ''ENG''\<rparr>)
   \<and> ws_tokens (''eng'' @ [CHR 0x09] @ ''ENG'') = [''eng'', ''ENG'']
   \<and> last (ws_tokens (''eng'' @ [CHR 0x09] @ ''ENG'')) = ''ENG''
   \<and> ''eng'' @ [CHR 0x09] @ ''ENG'' \<noteq> ''ENG''"
  by code_simp

text \<open>
  Claim C10: in a report that \<open>get_scouting_report\<close> returns, the keys of the percentile
  mapping of every statistic are exactly the detected positions.
\<close>

theorem C10_every_position_has_a_percentile:
  assumes "get_scouting_report fetch idx nm = Inr r" and "(stat, e) \<in> set (data r)"
  shows "\<exists>pm. map_of e ''Percentile'' = Some (Mapping pm) \<and> fst ` set pm = set (positions r)"
proof -
  from get_scouting_report_parts [OF assms(1)] obtain ts where
    m: "merge_tables (positions r) ts = Inr (data r)" by blast
  from merge_tables_entry [OF m assms(2)] obtain flds pm where
    pm: "fill_percentiles ts stat (enumerate_list (positions r)) [] = Inr pm"
    and e: "e = merged_entry flds pm" by blast
  from fill_keys [OF pm] have "fst ` set pm = set (positions r)" by (simp add: enumerate_set)
  with e merged_entry_percentile show ?thesis by blast
qed

theorem C10_every_position_has_a_percentile_witness:
  "get_scouting_report site ''e46012d4'' ''Ann-Example'' = Inr report_full
   \<and> (''Assists'', [(''Per 90'', Scalar (Str ''0.30'')),
                      (''Percentile'', Mapping [(''AM'', Str ''60''), (''FW'', Str ''50'')])])
        \<in> set (data report_full)
   \<and> (\<exists>pm. map_of [(''Per 90'', Scalar (Str ''0.30'')),
                      (''Percentile'', Mapping [(''AM'', Str ''60''), (''FW'', Str ''50'')])]
                ''Percentile'' = Some (Mapping pm)
          \<and> fst ` set pm = set (positions report_full))"
proof -
  have r: "get_scouting_report site ''e46012d4'' ''Ann-Example'' = Inr report_full"
    by code_simp
  have a: "(''Assists'', [(''Per 90'', Scalar (Str ''0.30'')),
                      (''Percentile'', Mapping [(''AM'', Str ''60''), (''FW'', Str ''50'')])])
        \<in> set (data report_full)" by (simp add: report_full_def)
  from C10_every_position_has_a_percentile [OF r a] r a show ?thesis by blast
qed

end
